theory Spec2Isabelle
  imports Main "HOL-Library.Word"
begin

section \<open>Data model\<close>

text \<open>
  A JavaScript string is a sequence of UTF-16 code units, that is of 16-bit unsigned
  integers. The titles and the texts typed into the input fields are such sequences,
  so that every text the page can receive has its value here. The names of keys, the
  routes and the storage key are only compared with ASCII literals; they are HOL
  strings.
\<close>

type_synonym js_string = "16 word list"

text \<open>The code units of a literal written in ASCII.\<close>

definition utf16 :: "string \<Rightarrow> js_string" where
  "utf16 cs = map of_char cs"

text \<open>
  The interface \<open>Todo\<close> of the application: a numeric id (the creation time in
  milliseconds), a title and a completion flag. The field \<open>id\<close> is named
  \<open>id_todo\<close> here, since \<open>id\<close> is the identity function of HOL.
\<close>

record Todo =
  id_todo :: int
  title :: js_string
  completed :: bool

text \<open>
  JavaScript objects and arrays are reached through references, and the component
  shares them: \<open>filter\<close> returns a new array holding the same objects,
  \<open>this.todos = this.tempTodos\<close> makes two fields name one array, \<open>unshift\<close>
  changes an array in place and \<open>editTodo\<close> assigns to a field of a shared
  object. The model therefore keeps an explicit store: \<open>objs\<close> holds the Todo
  objects and \<open>arrs\<close> the arrays (lists of object references); a reference is an
  index into its store and allocation appends, so that a new reference is never one
  in use.

  The state is the five fields of \<open>HomeComponent\<close>, the two stores, and the
  browser's local storage behind \<open>LocalStorageService\<close>.
\<close>

type_synonym ref = nat

record state =
  todos :: ref
  tempTodos :: ref
  editMode :: bool
  todoSelectedToEdit :: "ref option"
  currentUrl :: string
  objs :: "Todo list"
  arrs :: "ref list list"
  localStorage :: "string \<rightharpoonup> Todo list"

datatype error = TypeError

text \<open>The contents of an array, as the list of the values of its objects.\<close>

definition read_array :: "state \<Rightarrow> ref \<Rightarrow> Todo list" where
  "read_array s a = map (\<lambda>r. objs s ! r) (arrs s ! a)"

text \<open>
  The two lists of the specification: \<open>allTodos\<close> is the content of the array
  \<open>this.todos\<close>, \<open>visibleTodos\<close> the content of \<open>this.tempTodos\<close>.
\<close>

definition allTodos :: "state \<Rightarrow> Todo list" where
  "allTodos s = read_array s (todos s)"

definition visibleTodos :: "state \<Rightarrow> Todo list" where
  "visibleTodos s = read_array s (tempTodos s)"

text \<open>
  A state is well formed when no reference dangles: the two array fields name
  allocated arrays, these hold allocated objects, and the todo selected for editing,
  when there is one, is an allocated object. JavaScript has no dangling references,
  so every state of the running program is well formed.
\<close>

definition well_formed :: "state \<Rightarrow> bool" where
  "well_formed s \<longleftrightarrow>
     todos s < length (arrs s) \<and> tempTodos s < length (arrs s) \<and>
     list_all (\<lambda>r. r < length (objs s)) (arrs s ! todos s) \<and>
     list_all (\<lambda>r. r < length (objs s)) (arrs s ! tempTodos s) \<and>
     (case todoSelectedToEdit s of None \<Rightarrow> True | Some r \<Rightarrow> r < length (objs s))"

section \<open>Primitives of the language and of the browser\<close>

text \<open>
  \<open>String.prototype.trim\<close> removes the white space and the line terminators at both
  ends. In ECMAScript these are the code points TAB (U+0009), VT (U+000B), FF
  (U+000C), ZWNBSP (U+FEFF) and those of the Unicode category Space_Separator
  (U+0020, U+00A0, U+1680, U+2000 to U+200A, U+202F, U+205F, U+3000), and the line
  terminators LF (U+000A), CR (U+000D), LS (U+2028) and PS (U+2029). All of them are
  single code units, and no half of a surrogate pair is among them.
\<close>

definition is_white_space :: "16 word \<Rightarrow> bool" where
  "is_white_space c \<longleftrightarrow>
     c = 0x0009 \<or> c = 0x000A \<or> c = 0x000B \<or> c = 0x000C \<or> c = 0x000D \<or> c = 0x0020 \<or>
     c = 0x00A0 \<or> c = 0x1680 \<or> (0x2000 \<le> c \<and> c \<le> 0x200A) \<or>
     c = 0x2028 \<or> c = 0x2029 \<or> c = 0x202F \<or> c = 0x205F \<or> c = 0x3000 \<or> c = 0xFEFF"

definition trim :: "js_string \<Rightarrow> js_string" where
  "trim v = rev (dropWhile is_white_space (rev (dropWhile is_white_space v)))"

text \<open>An object literal and an array literal allocate.\<close>

definition new_object :: "Todo \<Rightarrow> state \<Rightarrow> ref \<times> state" where
  "new_object v s = (length (objs s), s\<lparr>objs := objs s @ [v]\<rparr>)"

definition new_array :: "ref list \<Rightarrow> state \<Rightarrow> ref \<times> state" where
  "new_array rs s = (length (arrs s), s\<lparr>arrs := arrs s @ [rs]\<rparr>)"

text \<open>\<open>Array.prototype.unshift\<close> puts an element in front of the array, in place.\<close>

definition unshift :: "ref \<Rightarrow> ref \<Rightarrow> state \<Rightarrow> state" where
  "unshift a r s = s\<lparr>arrs := (arrs s)[a := r # (arrs s ! a)]\<rparr>"

text \<open>
  Modelled from the spec: \<open>setItem\<close> of \<open>LocalStorageService\<close>
  (src/app/services/local-storage.service), which is not among the sources. The
  specification describes the service as a synchronous key-value store,
  \<open>setItem(key, value) -> void\<close>, whose value under \<open>"todos"\<close> is a JSON-serialisable
  sequence of todos. So \<open>setItem\<close> stores the value that the array has at the time of
  the call.
\<close>

definition setItem :: "string \<Rightarrow> ref \<Rightarrow> state \<Rightarrow> state" where
  "setItem k a s = s\<lparr>localStorage := (localStorage s)(k \<mapsto> read_array s a)\<rparr>"

text \<open>
  Modelled from the spec: \<open>getItem\<close> of the same service,
  \<open>getItem(key) -> value|undefined\<close>. It returns \<open>undefined\<close> (\<open>None\<close>) for an absent
  key and otherwise a freshly decoded array of fresh objects with the stored values.
\<close>

definition getItem :: "string \<Rightarrow> state \<Rightarrow> ref option \<times> state" where
  "getItem k s =
     (case localStorage s k of
        None \<Rightarrow> (None, s)
      | Some vs \<Rightarrow>
          (Some (length (arrs s)),
           s\<lparr>objs := objs s @ vs,
             arrs := arrs s @ [[length (objs s) ..< length (objs s) + length vs]]\<rparr>))"

section \<open>The component\<close>

text \<open>
  The field initialisers of the class: two distinct empty arrays, no edit mode, no
  selected todo, the empty URL. The local storage is the browser's.
\<close>

definition HomeComponent :: "(string \<rightharpoonup> Todo list) \<Rightarrow> state" where
  "HomeComponent st =
     \<lparr>todos = 0, tempTodos = 1, editMode = False, todoSelectedToEdit = None,
      currentUrl = [], objs = [], arrs = [[], []], localStorage = st\<rparr>"

text \<open>
  \<open>saveTodos\<close>: on the route \<open>/completed\<close> the array \<open>todos\<close> is stored,
  otherwise \<open>tempTodos\<close>.
\<close>

definition saveTodos :: "state \<Rightarrow> state" where
  "saveTodos s =
     (if currentUrl s = ''/completed'' then setItem ''todos'' (todos s) s
      else setItem ''todos'' (tempTodos s) s)"

text \<open>
  \<open>filterTodos\<close>: \<open>filter\<close> allocates a new array of the same objects; the default
  branch makes \<open>tempTodos\<close> the very array \<open>todos\<close>.
\<close>

definition filterTodos :: "state \<Rightarrow> state" where
  "filterTodos s =
     (if currentUrl s = ''/completed'' then
        (let (a, s1) = new_array (filter (\<lambda>r. completed (objs s ! r)) (arrs s ! todos s)) s
         in s1\<lparr>tempTodos := a\<rparr>)
      else if currentUrl s = ''/pending'' then
        (let (a, s1) = new_array (filter (\<lambda>r. \<not> completed (objs s ! r)) (arrs s ! todos s)) s
         in s1\<lparr>tempTodos := a\<rparr>)
      else s\<lparr>tempTodos := todos s\<rparr>)"

text \<open>
  \<open>ngOnInit\<close>, with \<open>this.router.url\<close> as the parameter \<open>url\<close>. The source calls
  \<open>getItem\<close> twice: the first result is only tested (an array is truthy, an absent
  value is not), the second becomes \<open>this.todos\<close>. Nothing writes the storage
  between the two calls, so the second finds what the first found; the branch where
  it does not is written out and leaves the state as it is.
\<close>

definition ngOnInit :: "string \<Rightarrow> state \<Rightarrow> state" where
  "ngOnInit url s =
     (let s1 = s\<lparr>currentUrl := url\<rparr>;
          (g1, s2) = getItem ''todos'' s1
      in case g1 of
           None \<Rightarrow> s2
         | Some _ \<Rightarrow>
             (let (g2, s3) = getItem ''todos'' s2
              in case g2 of
                   None \<Rightarrow> s3
                 | Some a \<Rightarrow> filterTodos (s3\<lparr>todos := a\<rparr>)))"

text \<open>
  \<open>addNewTodo\<close>, with \<open>event.target.value\<close> as \<open>v\<close>, \<open>event.key\<close> as \<open>k\<close> and
  \<open>Date.now()\<close> as \<open>now\<close>. The object \<open>newTodo\<close> is built for every key. The
  assignment \<open>input.value = ''\<close> changes the input element of the page, which is
  not part of the component's state.
\<close>

definition addNewTodo :: "js_string \<Rightarrow> string \<Rightarrow> int \<Rightarrow> state \<Rightarrow> state" where
  "addNewTodo v k now s =
     (let title = trim v;
          (newTodo, s1) = new_object \<lparr>id_todo = now, title = title, completed = False\<rparr> s;
          s2 = (if k = ''Enter'' then unshift (tempTodos s1) newTodo s1 else s1)
      in saveTodos s2)"

text \<open>
  The callback of \<open>map\<close> in \<open>toggleCheck\<close>, run over the elements in order: an item
  with the id of \<open>todo\<close> is replaced by a new object with \<open>completed\<close> negated, any
  other item is kept (the same object). The result is the list of the references of
  the new array and the object store after the allocations.
\<close>

fun toggle_items :: "ref \<Rightarrow> ref list \<Rightarrow> Todo list \<Rightarrow> ref list \<times> Todo list" where
  "toggle_items todo [] os = ([], os)"
| "toggle_items todo (item # items) os =
     (if id_todo (os ! todo) = id_todo (os ! item) then
        (let (rs, os') =
               toggle_items todo items (os @ [(os ! item)\<lparr>completed := \<not> completed (os ! item)\<rparr>])
         in (length os # rs, os'))
      else
        (let (rs, os') = toggle_items todo items os in (item # rs, os')))"

definition toggleCheck :: "ref \<Rightarrow> state \<Rightarrow> state" where
  "toggleCheck todo s =
     (let (rs, os) = toggle_items todo (arrs s ! tempTodos s) (objs s);
          (a, s1) = new_array rs (s\<lparr>objs := os\<rparr>)
      in saveTodos (s1\<lparr>tempTodos := a\<rparr>))"

text \<open>\<open>deleteTodo\<close>: the filtered array becomes \<open>tempTodos\<close> and \<open>todos\<close> alike.\<close>

definition deleteTodo :: "ref \<Rightarrow> state \<Rightarrow> state" where
  "deleteTodo todo s =
     (let (a, s1) = new_array
            (filter (\<lambda>item. id_todo (objs s ! item) \<noteq> id_todo (objs s ! todo))
               (arrs s ! tempTodos s)) s;
          s2 = s1\<lparr>tempTodos := a\<rparr>;
          s3 = s2\<lparr>todos := tempTodos s2\<rparr>
      in saveTodos s3)"

definition selectTodoToEdit :: "ref \<Rightarrow> state \<Rightarrow> state" where
  "selectTodoToEdit todo s = s\<lparr>editMode := True, todoSelectedToEdit := Some todo\<rparr>"

text \<open>
  The callback of \<open>map\<close> in \<open>editTodo\<close>: an item with the id of the selected todo
  is replaced by a new copy of the selected todo.
\<close>

fun replace_items :: "ref \<Rightarrow> ref list \<Rightarrow> Todo list \<Rightarrow> ref list \<times> Todo list" where
  "replace_items sel [] os = ([], os)"
| "replace_items sel (item # items) os =
     (if id_todo (os ! sel) = id_todo (os ! item) then
        (let (rs, os') = replace_items sel items (os @ [os ! sel])
         in (length os # rs, os'))
      else
        (let (rs, os') = replace_items sel items os in (item # rs, os')))"

text \<open>
  \<open>editTodo\<close>, with \<open>event.target.value\<close> as \<open>v\<close> and \<open>event.key\<close> as \<open>k\<close>. The
  title of the selected object is assigned first, for every key; with no selected
  todo (the field is declared without a value) the assignment throws a TypeError.
\<close>

definition editTodo :: "js_string \<Rightarrow> string \<Rightarrow> state \<Rightarrow> error + state" where
  "editTodo v k s =
     (case todoSelectedToEdit s of
        None \<Rightarrow> Inl TypeError
      | Some sel \<Rightarrow>
          (let title = trim v;
               s1 = s\<lparr>objs := (objs s)[sel := (objs s ! sel)\<lparr>title := title\<rparr>]\<rparr>
           in if k = ''Escape'' then Inr (s1\<lparr>editMode := False\<rparr>)
              else
                (let s2 =
                   (if k = ''Enter'' then
                      (let (rs, os) = replace_items sel (arrs s1 ! tempTodos s1) (objs s1);
                           (a, s') = new_array rs (s1\<lparr>objs := os\<rparr>)
                       in s'\<lparr>tempTodos := a, editMode := False\<rparr>)
                    else s1)
                 in Inr (saveTodos s2))))"

text \<open>
  The getter \<open>pendingTodos\<close>. \<open>filter\<close> allocates an array that only serves for its
  length; the getter returns the number and the state with that array in the store.
\<close>

definition pendingTodos :: "state \<Rightarrow> nat \<times> state" where
  "pendingTodos s =
     (let (a, s1) = new_array (filter (\<lambda>r. \<not> completed (objs s ! r)) (arrs s ! todos s)) s
      in (length (arrs s1 ! a), s1))"

definition clearCompleted :: "state \<Rightarrow> state" where
  "clearCompleted s =
     (if currentUrl s = ''/completed'' then
        (let (e, s1) = new_array [] s;
             s2 = s1\<lparr>tempTodos := e\<rparr>;
             (a, s3) = new_array
               (filter (\<lambda>r. completed (objs s2 ! r) = False) (arrs s2 ! todos s2)) s2;
             s4 = s3\<lparr>todos := a\<rparr>
         in saveTodos s4)
      else
        (let (a, s1) = new_array
               (filter (\<lambda>r. completed (objs s ! r) = False) (arrs s ! tempTodos s)) s;
             s2 = s1\<lparr>todos := a\<rparr>;
             s3 = s2\<lparr>tempTodos := todos s2\<rparr>
         in saveTodos s3))"

section \<open>Runs of the component\<close>

text \<open>A sequence of \<open>addNewTodo\<close> events with the key Enter: the texts and the clock values.\<close>

fun addNewTodo_seq :: "(js_string \<times> int) list \<Rightarrow> state \<Rightarrow> state" where
  "addNewTodo_seq [] s = s"
| "addNewTodo_seq ((v, now) # cs) s = addNewTodo_seq cs (addNewTodo v ''Enter'' now s)"

text \<open>
  The component as the page starts it: constructed over a storage that holds the list
  \<open>ts\<close> under \<open>"todos"\<close>, then initialised on the route \<open>url\<close>.
\<close>

definition started :: "string \<Rightarrow> Todo list \<Rightarrow> state" where
  "started url ts = ngOnInit url (HomeComponent [''todos'' \<mapsto> ts])"

text \<open>Example data: two todos, and components started on them.\<close>

abbreviation todo_a :: Todo where
  "todo_a \<equiv> \<lparr>id_todo = 1, title = utf16 ''a'', completed = False\<rparr>"

abbreviation todo_b :: Todo where
  "todo_b \<equiv> \<lparr>id_todo = 2, title = utf16 ''b'', completed = True\<rparr>"

abbreviation all_example :: state where
  "all_example \<equiv> started ''/'' [todo_a, todo_b]"

abbreviation pending_example :: state where
  "pending_example \<equiv> started ''/pending'' [todo_a, todo_b]"

abbreviation completed_example :: state where
  "completed_example \<equiv> started ''/completed'' [todo_a, todo_b]"

text \<open>
  The component started on \<open>/completed\<close> over the list \<open>[{2, "b", true}]\<close>, after the
  visible entry (object 1) was selected and edited to \<open>"z"\<close> with the key Escape.
\<close>

abbreviation edited_example :: state where
  "edited_example \<equiv>
     projr (editTodo (utf16 ''z'') ''Escape'' (selectTodoToEdit 1 (started ''/completed'' [todo_b])))"

text \<open>The component started on the route \<open>url\<close> over an empty storage.\<close>

abbreviation empty_example :: "string \<Rightarrow> state" where
  "empty_example url \<equiv> ngOnInit url (HomeComponent Map.empty)"

section \<open>The store: reading through allocations\<close>

lemmas ops_defs = read_array_def allTodos_def visibleTodos_def new_object_def new_array_def
  unshift_def setItem_def saveTodos_def Let_def

lemmas run_defs = started_def ngOnInit_def HomeComponent_def getItem_def filterTodos_def
  addNewTodo_def toggleCheck_def deleteTodo_def selectTodoToEdit_def editTodo_def
  pendingTodos_def clearCompleted_def trim_def is_white_space_def utf16_def well_formed_def
  ops_defs

text \<open>
  What \<open>trim\<close> computes: the text is the result between two runs of white space, the
  result neither starts nor ends with white space, and it is empty exactly for a text
  of white space only.
\<close>

lemma trim_decomp:
  "\<exists>a b. v = a @ trim v @ b \<and> list_all is_white_space a \<and> list_all is_white_space b"
proof -
  let ?a = "takeWhile is_white_space v"
  let ?w = "dropWhile is_white_space v"
  let ?b = "rev (takeWhile is_white_space (rev ?w))"
  have "rev ?w = takeWhile is_white_space (rev ?w) @ dropWhile is_white_space (rev ?w)"
    by simp
  then have "?w = trim v @ ?b"
    by (metis rev_append rev_rev_ident trim_def)
  then have "v = ?a @ trim v @ ?b"
    by (metis takeWhile_dropWhile_id)
  moreover have "list_all is_white_space ?a" "list_all is_white_space ?b"
    by (auto simp: list_all_iff dest: set_takeWhileD)
  ultimately show ?thesis by blast
qed

lemma dropWhile_all_iff:
  "(\<forall>x \<in> set (dropWhile P xs). P x) \<longleftrightarrow> (\<forall>x \<in> set xs. P x)"
  by (induction xs) auto

lemma trim_empty_iff: "trim v = [] \<longleftrightarrow> list_all is_white_space v"
  by (simp add: trim_def dropWhile_eq_Nil_conv list_all_iff dropWhile_all_iff)

lemma last_dropWhile: "dropWhile P xs \<noteq> [] \<Longrightarrow> last (dropWhile P xs) = last xs"
  by (induction xs) (auto split: if_splits)

lemma trim_ends:
  assumes "trim v \<noteq> []"
  shows "\<not> is_white_space (hd (trim v)) \<and> \<not> is_white_space (last (trim v))"
proof -
  let ?w = "dropWhile is_white_space v"
  let ?u = "dropWhile is_white_space (rev ?w)"
  from assms have u: "?u \<noteq> []" by (simp add: trim_def)
  have w: "?w \<noteq> []"
    using u by (metis dropWhile.simps(1) rev.simps(1))
  have "last (trim v) = hd ?u" using u by (simp add: trim_def last_rev)
  moreover have "\<not> is_white_space (hd ?u)" using u by (rule hd_dropWhile)
  moreover have "hd (trim v) = last ?u" using u by (simp add: trim_def hd_rev)
  moreover have "last ?u = hd ?w" using u w by (simp add: last_dropWhile last_rev)
  moreover have "\<not> is_white_space (hd ?w)" using w by (rule hd_dropWhile)
  ultimately show ?thesis by simp
qed

lemma map_nth_append_valid:
  "list_all (\<lambda>r. r < length os) rs \<Longrightarrow> map (\<lambda>r. (os @ ys) ! r) rs = map (\<lambda>r. os ! r) rs"
  by (induction rs) (simp_all add: nth_append)

lemma list_all_less_mono:
  "list_all (\<lambda>r. r < (n::nat)) rs \<Longrightarrow> n \<le> m \<Longrightarrow> list_all (\<lambda>r. r < m) rs"
  by (induction rs) auto

lemma map_nth_append_upt:
  "map (\<lambda>r. (xs @ ys) ! r) [length xs ..< length xs + length ys] = ys"
proof -
  have "[length xs ..< length xs + length ys] = map (\<lambda>i. i + length xs) [0 ..< length ys]"
    by (simp add: map_add_upt add.commute)
  then show ?thesis
    by (simp add: comp_def nth_append map_nth)
qed

text \<open>
  The \<open>map\<close> of \<open>toggleCheck\<close> only appends to the object store, returns valid
  references, and the values of the new array are those of the old one with the
  matching entries toggled.
\<close>

lemma toggle_items_spec:
  "todo < length os \<Longrightarrow> list_all (\<lambda>r. r < length os) items \<Longrightarrow>
   toggle_items todo items os = (rs, os') \<Longrightarrow>
   (\<exists>ys. os' = os @ ys) \<and> list_all (\<lambda>r. r < length os') rs \<and>
   map (\<lambda>r. os' ! r) rs =
     map (\<lambda>t. if id_todo (os ! todo) = id_todo t then t\<lparr>completed := \<not> completed t\<rparr> else t)
       (map (\<lambda>r. os ! r) items)"
proof (induction items arbitrary: os rs os')
  case Nil
  then show ?case by simp
next
  case (Cons item items)
  show ?case
  proof (cases "id_todo (os ! todo) = id_todo (os ! item)")
    case True
    let ?n = "(os ! item)\<lparr>completed := \<not> completed (os ! item)\<rparr>"
    let ?os1 = "os @ [?n]"
    obtain rs1 os1' where t: "toggle_items todo items ?os1 = (rs1, os1')"
      by (cases "toggle_items todo items ?os1")
    with True Cons.prems have r: "rs = length os # rs1" "os' = os1'"
      by simp_all
    have v: "list_all (\<lambda>r. r < length ?os1) items"
      using Cons.prems(2) by (auto intro: list_all_less_mono)
    have "todo < length ?os1" using Cons.prems(1) by simp
    from Cons.IH [OF this v t] obtain ys where
      a: "os1' = ?os1 @ ys" and b: "list_all (\<lambda>r. r < length os1') rs1" and
      c: "map (\<lambda>r. os1' ! r) rs1 =
            map (\<lambda>t. if id_todo (?os1 ! todo) = id_todo t then t\<lparr>completed := \<not> completed t\<rparr> else t)
              (map (\<lambda>r. ?os1 ! r) items)"
      by blast
    have d: "?os1 ! todo = os ! todo" using Cons.prems(1) by (simp add: nth_append)
    have e: "map (\<lambda>r. ?os1 ! r) items = map (\<lambda>r. os ! r) items"
      using Cons.prems(2) by (simp add: map_nth_append_valid)
    have f: "os1' ! length os = ?n" using a by (simp add: nth_append)
    show ?thesis using a b c d e f r True by simp
  next
    case False
    obtain rs1 os1' where t: "toggle_items todo items os = (rs1, os1')"
      by (cases "toggle_items todo items os")
    with False Cons.prems have r: "rs = item # rs1" "os' = os1'"
      by simp_all
    have v: "list_all (\<lambda>r. r < length os) items" "item < length os"
      using Cons.prems(2) by simp_all
    from Cons.IH [OF Cons.prems(1) v(1) t] obtain ys where
      a: "os1' = os @ ys" and b: "list_all (\<lambda>r. r < length os1') rs1" and
      c: "map (\<lambda>r. os1' ! r) rs1 =
            map (\<lambda>t. if id_todo (os ! todo) = id_todo t then t\<lparr>completed := \<not> completed t\<rparr> else t)
              (map (\<lambda>r. os ! r) items)"
      by blast
    have f: "os1' ! item = os ! item" using a v(2) by (simp add: nth_append)
    show ?thesis using a b c f r False v(2) by simp
  qed
qed

text \<open>The same for the \<open>map\<close> of \<open>editTodo\<close>, which copies the selected todo.\<close>

lemma replace_items_spec:
  "sel < length os \<Longrightarrow> list_all (\<lambda>r. r < length os) items \<Longrightarrow>
   replace_items sel items os = (rs, os') \<Longrightarrow>
   (\<exists>ys. os' = os @ ys) \<and> list_all (\<lambda>r. r < length os') rs \<and>
   map (\<lambda>r. os' ! r) rs =
     map (\<lambda>t. if id_todo (os ! sel) = id_todo t then os ! sel else t) (map (\<lambda>r. os ! r) items)"
proof (induction items arbitrary: os rs os')
  case Nil
  then show ?case by simp
next
  case (Cons item items)
  show ?case
  proof (cases "id_todo (os ! sel) = id_todo (os ! item)")
    case True
    let ?os1 = "os @ [os ! sel]"
    obtain rs1 os1' where t: "replace_items sel items ?os1 = (rs1, os1')"
      by (cases "replace_items sel items ?os1")
    with True Cons.prems have r: "rs = length os # rs1" "os' = os1'"
      by simp_all
    have v: "list_all (\<lambda>r. r < length ?os1) items"
      using Cons.prems(2) by (auto intro: list_all_less_mono)
    have "sel < length ?os1" using Cons.prems(1) by simp
    from Cons.IH [OF this v t] obtain ys where
      a: "os1' = ?os1 @ ys" and b: "list_all (\<lambda>r. r < length os1') rs1" and
      c: "map (\<lambda>r. os1' ! r) rs1 =
            map (\<lambda>t. if id_todo (?os1 ! sel) = id_todo t then ?os1 ! sel else t)
              (map (\<lambda>r. ?os1 ! r) items)"
      by blast
    have d: "?os1 ! sel = os ! sel" using Cons.prems(1) by (simp add: nth_append)
    have e: "map (\<lambda>r. ?os1 ! r) items = map (\<lambda>r. os ! r) items"
      using Cons.prems(2) by (simp add: map_nth_append_valid)
    have f: "os1' ! length os = os ! sel" using a by (simp add: nth_append)
    show ?thesis using a b c d e f r True by simp
  next
    case False
    obtain rs1 os1' where t: "replace_items sel items os = (rs1, os1')"
      by (cases "replace_items sel items os")
    with False Cons.prems have r: "rs = item # rs1" "os' = os1'"
      by simp_all
    have v: "list_all (\<lambda>r. r < length os) items" "item < length os"
      using Cons.prems(2) by simp_all
    from Cons.IH [OF Cons.prems(1) v(1) t] obtain ys where
      a: "os1' = os @ ys" and b: "list_all (\<lambda>r. r < length os1') rs1" and
      c: "map (\<lambda>r. os1' ! r) rs1 =
            map (\<lambda>t. if id_todo (os ! sel) = id_todo t then os ! sel else t)
              (map (\<lambda>r. os ! r) items)"
      by blast
    have f: "os1' ! item = os ! item" using a v(2) by (simp add: nth_append)
    show ?thesis using a b c f r False v(2) by simp
  qed
qed

section \<open>Well-formedness is an invariant\<close>

text \<open>
  The constructed component is well formed and every operation keeps it so: the
  hypothesis \<open>well_formed\<close> of the theorems below holds in every state the page can reach.
\<close>

lemma well_formed_HomeComponent: "well_formed (HomeComponent st)"
  by (simp add: well_formed_def HomeComponent_def)

lemma well_formed_saveTodos: "well_formed s \<Longrightarrow> well_formed (saveTodos s)"
  by (simp add: well_formed_def ops_defs split: option.splits)

lemma well_formed_filterTodos: "well_formed s \<Longrightarrow> well_formed (filterTodos s)"
  by (auto simp: well_formed_def filterTodos_def ops_defs nth_append list_all_iff split: option.splits)

lemma well_formed_ngOnInit: "well_formed s \<Longrightarrow> well_formed (ngOnInit url s)"
  by (auto simp: well_formed_def ngOnInit_def getItem_def filterTodos_def ops_defs nth_append list_all_iff
      split: option.splits)

lemma well_formed_started: "well_formed (started url ts)"
  unfolding started_def by (rule well_formed_ngOnInit) (rule well_formed_HomeComponent)

lemma well_formed_addNewTodo: "well_formed s \<Longrightarrow> well_formed (addNewTodo v k now s)"
  by (auto simp: addNewTodo_def ops_defs well_formed_def list_all_iff nth_list_update less_Suc_eq
      split: option.splits)

lemma well_formed_deleteTodo: "well_formed s \<Longrightarrow> well_formed (deleteTodo todo s)"
  by (auto simp: well_formed_def deleteTodo_def ops_defs nth_append list_all_iff split: option.splits)

lemma well_formed_selectTodoToEdit: "well_formed s \<Longrightarrow> todo < length (objs s) \<Longrightarrow> well_formed (selectTodoToEdit todo s)"
  by (simp add: well_formed_def selectTodoToEdit_def)

lemma well_formed_clearCompleted: "well_formed s \<Longrightarrow> well_formed (clearCompleted s)"
  by (auto simp: well_formed_def clearCompleted_def ops_defs nth_append list_all_iff split: option.splits)

lemma well_formed_pendingTodos: "well_formed s \<Longrightarrow> well_formed (snd (pendingTodos s))"
  by (auto simp: well_formed_def pendingTodos_def ops_defs nth_append list_all_iff split: option.splits)

lemma well_formed_editTodo:
  assumes "well_formed s" "editTodo v k s = Inr s'"
  shows "well_formed s'"
proof -
  from assms(2) obtain sel where sel: "todoSelectedToEdit s = Some sel"
    by (cases "todoSelectedToEdit s") (simp_all add: editTodo_def)
  let ?s1 = "s\<lparr>objs := (objs s)[sel := (objs s ! sel)\<lparr>title := trim v\<rparr>]\<rparr>"
  have w1: "well_formed ?s1" using assms(1) by (simp add: well_formed_def split: option.splits)
  show ?thesis
  proof (cases "k = ''Escape''")
    case True
    with assms(2) sel have "s' = ?s1\<lparr>editMode := False\<rparr>"
      by (simp add: editTodo_def)
    with w1 show ?thesis by (simp add: well_formed_def split: option.splits)
  next
    case esc: False
    show ?thesis
    proof (cases "k = ''Enter''")
      case False
      with esc assms(2) sel have "s' = saveTodos ?s1"
        by (simp add: editTodo_def)
      with w1 show ?thesis by (simp add: well_formed_saveTodos)
    next
      case True
      obtain rs os where t: "replace_items sel (arrs ?s1 ! tempTodos ?s1) (objs ?s1) = (rs, os)"
        by (cases "replace_items sel (arrs ?s1 ! tempTodos ?s1) (objs ?s1)")
      have v: "list_all (\<lambda>r. r < length (objs ?s1)) (arrs ?s1 ! tempTodos ?s1)"
        "sel < length (objs ?s1)"
        using w1 sel by (simp_all add: well_formed_def)
      from replace_items_spec [OF v(2) v(1) t] obtain ys where
        a: "os = objs ?s1 @ ys" and b: "list_all (\<lambda>r. r < length os) rs"
        by blast
      let ?s2 = "?s1\<lparr>objs := os, arrs := arrs s @ [rs], tempTodos := length (arrs s),
        editMode := False\<rparr>"
      have "s' = saveTodos ?s2"
        using True assms(2) sel t by (simp add: editTodo_def new_array_def)
      moreover have "well_formed ?s2"
        using w1 a b sel
        by (auto simp: well_formed_def nth_append list_all_iff split: option.splits)
      ultimately show ?thesis by (simp add: well_formed_saveTodos)
    qed
  qed
qed

section \<open>The operations on the values of the two lists\<close>

lemma filterTodos_visible:
  "visibleTodos (filterTodos s) =
     (if currentUrl s = ''/completed'' then filter completed (allTodos s)
      else if currentUrl s = ''/pending'' then filter (\<lambda>t. \<not> completed t) (allTodos s)
      else allTodos s)"
  by (simp add: filterTodos_def ops_defs filter_map comp_def)

lemma filterTodos_all:
  "todos s < length (arrs s) \<Longrightarrow> allTodos (filterTodos s) = allTodos s"
  by (simp add: filterTodos_def ops_defs nth_append_left)

text \<open>
  A fresh component initialised over a storage that holds \<open>X\<close>: \<open>todos\<close> has the
  values \<open>X\<close> and \<open>tempTodos\<close> their filter for the route.
\<close>

lemma ngOnInit_fresh_Some:
  assumes "st ''todos'' = Some X"
  shows "allTodos (ngOnInit url (HomeComponent st)) = X"
    and "visibleTodos (ngOnInit url (HomeComponent st)) =
     (if url = ''/completed'' then filter completed X
      else if url = ''/pending'' then filter (\<lambda>t. \<not> completed t) X else X)"
    and "currentUrl (ngOnInit url (HomeComponent st)) = url"
    and "localStorage (ngOnInit url (HomeComponent st)) = st"
proof -
  let ?s3 = "\<lparr>todos = 3, tempTodos = 1, editMode = False, todoSelectedToEdit = None,
      currentUrl = url, objs = X @ X,
      arrs = [[], [], [0 ..< length X], [length X ..< length X + length X]],
      localStorage = st\<rparr>"
  have n: "ngOnInit url (HomeComponent st) = filterTodos ?s3"
    using assms by (simp add: ngOnInit_def HomeComponent_def getItem_def numeral_3_eq_3)
  have a: "allTodos ?s3 = X"
    by (simp add: allTodos_def read_array_def map_nth_append_upt)
  show "allTodos (ngOnInit url (HomeComponent st)) = X"
    unfolding n using a by (simp add: filterTodos_all)
  show "visibleTodos (ngOnInit url (HomeComponent st)) =
     (if url = ''/completed'' then filter completed X
      else if url = ''/pending'' then filter (\<lambda>t. \<not> completed t) X else X)"
    unfolding n filterTodos_visible a by simp
  show "currentUrl (ngOnInit url (HomeComponent st)) = url"
    "localStorage (ngOnInit url (HomeComponent st)) = st"
    unfolding n by (simp_all add: filterTodos_def ops_defs)
qed

lemma ngOnInit_fresh_None:
  assumes "st ''todos'' = None"
  shows "allTodos (ngOnInit url (HomeComponent st)) = []"
    and "visibleTodos (ngOnInit url (HomeComponent st)) = []"
  using assms by (simp_all add: ngOnInit_def HomeComponent_def getItem_def ops_defs)

text \<open>What \<open>toggleCheck\<close> does, on the values.\<close>

lemma toggleCheck_effect:
  assumes "well_formed s" "todo < length (objs s)"
  shows "visibleTodos (toggleCheck todo s) =
           map (\<lambda>t. if id_todo (objs s ! todo) = id_todo t then t\<lparr>completed := \<not> completed t\<rparr> else t)
             (visibleTodos s)"
    and "well_formed (toggleCheck todo s)"
    and "\<exists>ys. objs (toggleCheck todo s) = objs s @ ys"
    and "allTodos (toggleCheck todo s) = allTodos s"
    and "localStorage (toggleCheck todo s) =
           (localStorage s)(''todos'' \<mapsto>
              (if currentUrl s = ''/completed'' then allTodos s else visibleTodos (toggleCheck todo s)))"
    and "todos (toggleCheck todo s) = todos s"
    and "editMode (toggleCheck todo s) = editMode s"
    and "currentUrl (toggleCheck todo s) = currentUrl s"
    and "todoSelectedToEdit (toggleCheck todo s) = todoSelectedToEdit s"
proof -
  obtain rs os where t: "toggle_items todo (arrs s ! tempTodos s) (objs s) = (rs, os)"
    by (cases "toggle_items todo (arrs s ! tempTodos s) (objs s)")
  have v: "list_all (\<lambda>r. r < length (objs s)) (arrs s ! tempTodos s)"
    using assms(1) by (simp add: well_formed_def)
  from toggle_items_spec [OF assms(2) v t] obtain ys where
    a: "os = objs s @ ys" and b: "list_all (\<lambda>r. r < length os) rs" and
    c: "map (\<lambda>r. os ! r) rs =
          map (\<lambda>t. if id_todo (objs s ! todo) = id_todo t then t\<lparr>completed := \<not> completed t\<rparr> else t)
            (map (\<lambda>r. objs s ! r) (arrs s ! tempTodos s))"
    by blast
  have w: "todos s < length (arrs s)" "list_all (\<lambda>r. r < length (objs s)) (arrs s ! todos s)"
    using assms(1) by (simp_all add: well_formed_def)
  show "visibleTodos (toggleCheck todo s) =
           map (\<lambda>t. if id_todo (objs s ! todo) = id_todo t then t\<lparr>completed := \<not> completed t\<rparr> else t)
             (visibleTodos s)"
    using t c by (simp add: toggleCheck_def ops_defs)
  show "\<exists>ys. objs (toggleCheck todo s) = objs s @ ys"
    using t a by (simp add: toggleCheck_def ops_defs)
  show "allTodos (toggleCheck todo s) = allTodos s"
    using t a w by (simp add: toggleCheck_def ops_defs nth_append_left map_nth_append_valid)
  show "localStorage (toggleCheck todo s) =
           (localStorage s)(''todos'' \<mapsto>
              (if currentUrl s = ''/completed'' then allTodos s else visibleTodos (toggleCheck todo s)))"
    using t a w by (simp add: toggleCheck_def ops_defs nth_append_left map_nth_append_valid)
  show "todos (toggleCheck todo s) = todos s" "editMode (toggleCheck todo s) = editMode s"
    "currentUrl (toggleCheck todo s) = currentUrl s"
    "todoSelectedToEdit (toggleCheck todo s) = todoSelectedToEdit s"
    using t by (simp_all add: toggleCheck_def ops_defs)
  show "well_formed (toggleCheck todo s)"
    using t a b w assms(1)
    by (auto simp: toggleCheck_def ops_defs well_formed_def nth_append list_all_iff split: option.splits)
qed

lemma toggle_twice:
  "map (\<lambda>t. if (i::int) = id_todo t then t\<lparr>completed := \<not> completed t\<rparr> else t)
     (map (\<lambda>t. if i = id_todo t then t\<lparr>completed := \<not> completed t\<rparr> else t) ts) = ts"
  by (induction ts) simp_all

text \<open>What \<open>addNewTodo\<close> does with the key Enter, on the values.\<close>

lemma addNewTodo_Enter_visible:
  "well_formed s \<Longrightarrow>
   visibleTodos (addNewTodo v ''Enter'' now s) =
     \<lparr>id_todo = now, title = trim v, completed = False\<rparr> # visibleTodos s"
  by (simp add: addNewTodo_def ops_defs well_formed_def map_nth_append_valid)

lemma addNewTodo_seq_visible:
  "well_formed s \<Longrightarrow>
   visibleTodos (addNewTodo_seq cs s) =
     rev (map (\<lambda>(v, now). \<lparr>id_todo = now, title = trim v, completed = False\<rparr>) cs) @ visibleTodos s"
proof (induction cs arbitrary: s)
  case Nil
  then show ?case by simp
next
  case (Cons c cs)
  obtain v now where c: "c = (v, now)" by (cases c)
  have "well_formed (addNewTodo v ''Enter'' now s)"
    using Cons.prems by (rule well_formed_addNewTodo)
  from Cons.IH [OF this] show ?case
    using Cons.prems by (simp add: c addNewTodo_Enter_visible)
qed

text \<open>
  When no visible entry has the id of \<open>todo\<close>, the \<open>filter\<close> of \<open>deleteTodo\<close> keeps
  every reference.
\<close>

lemma filter_ids_absent:
  assumes "id_todo (objs s ! todo) \<notin> id_todo ` set (visibleTodos s)"
  shows "filter (\<lambda>item. id_todo (objs s ! item) \<noteq> id_todo (objs s ! todo)) (arrs s ! tempTodos s)
           = arrs s ! tempTodos s"
proof -
  have "\<forall>x \<in> set (arrs s ! tempTodos s). id_todo (objs s ! x) \<noteq> id_todo (objs s ! todo)"
  proof
    fix x assume "x \<in> set (arrs s ! tempTodos s)"
    then have "objs s ! x \<in> set (visibleTodos s)"
      by (simp add: visibleTodos_def read_array_def)
    with assms show "id_todo (objs s ! x) \<noteq> id_todo (objs s ! todo)"
      by (metis imageI)
  qed
  then show ?thesis by (simp add: filter_id_conv)
qed

section \<open>The claims\<close>

subsection \<open>C1: Escape leaves edit mode, stores nothing and keeps the new title\<close>

text \<open>
  C1. In every well-formed state whose selected todo is an entry of \<open>tempTodos\<close>
  (the visible list), \<open>editTodo\<close> with the key Escape returns normally, sets
  \<open>editMode\<close> to false, leaves the local storage as it is, and the selected entry
  has the title \<open>trim v\<close>: the visible list is the old one with that title in the
  selected entry. In particular, after \<open>selectTodoToEdit\<close> on a todo
  \<open>{1, "a", false}\<close> and \<open>editTodo\<close> with the text \<open>"z"\<close> and Escape, \<open>editMode\<close>
  is false and the title of that todo is \<open>"z"\<close>. The flag \<open>editMode\<close> of the
  state before is not used: the result holds whether or not it was set.
\<close>

theorem editTodo_Escape_keeps_title:
  "(well_formed s \<longrightarrow> todoSelectedToEdit s = Some sel \<longrightarrow>
    sel \<in> set (arrs s ! tempTodos s) \<longrightarrow>
     (case editTodo v ''Escape'' s of
        Inl e \<Rightarrow> False
      | Inr s' \<Rightarrow>
          \<not> editMode s' \<and> localStorage s' = localStorage s \<and>
          tempTodos s' = tempTodos s \<and> arrs s' = arrs s \<and>
          objs s' ! sel = (objs s ! sel)\<lparr>title := trim v\<rparr> \<and>
          visibleTodos s' =
            map (\<lambda>r. if r = sel then (objs s ! r)\<lparr>title := trim v\<rparr> else objs s ! r)
              (arrs s ! tempTodos s))) \<and>
   (well_formed s \<longrightarrow> todo < length (objs s) \<longrightarrow>
    objs s ! todo = \<lparr>id_todo = 1, title = utf16 ''a'', completed = False\<rparr> \<longrightarrow>
     (case editTodo (utf16 ''z'') ''Escape'' (selectTodoToEdit todo s) of
        Inl e \<Rightarrow> False
      | Inr s' \<Rightarrow>
          \<not> editMode s' \<and>
          objs s' ! todo = \<lparr>id_todo = 1, title = utf16 ''z'', completed = False\<rparr>))"
  by (intro conjI impI)
    (simp_all add: editTodo_def selectTodoToEdit_def ops_defs well_formed_def trim_def
      is_white_space_def utf16_def)

text \<open>
  The scenario of C1 on a started component: the list \<open>[{1, "a", false}]\<close> is in the
  storage, the route is \<open>/\<close>, and the visible entry (object 1) is selected. The edit
  is ended with Escape once with the text \<open>"z"\<close> between a no-break space, a space,
  an ideographic space and a byte order mark, and once with the plain text \<open>"z"\<close>:
  the title is \<open>"z"\<close> both times.
\<close>

theorem editTodo_Escape_keeps_title_witness:
  "well_formed (selectTodoToEdit 1 (started ''/'' [todo_a])) \<and>
   todoSelectedToEdit (selectTodoToEdit 1 (started ''/'' [todo_a])) = Some 1 \<and>
   editMode (selectTodoToEdit 1 (started ''/'' [todo_a])) \<and>
   visibleTodos (selectTodoToEdit 1 (started ''/'' [todo_a])) = [todo_a] \<and>
   trim (0xA0 # utf16 '' z'' @ [0x3000, 0xFEFF]) = utf16 ''z'' \<and>
   (case editTodo (0xA0 # utf16 '' z'' @ [0x3000, 0xFEFF]) ''Escape''
           (selectTodoToEdit 1 (started ''/'' [todo_a])) of
      Inl e \<Rightarrow> False
    | Inr s' \<Rightarrow>
        \<not> editMode s' \<and>
        localStorage s' ''todos'' = Some [todo_a] \<and>
        visibleTodos s' = [\<lparr>id_todo = 1, title = utf16 ''z'', completed = False\<rparr>]) \<and>
   (case editTodo (utf16 ''z'') ''Escape'' (selectTodoToEdit 1 (started ''/'' [todo_a])) of
      Inl e \<Rightarrow> False
    | Inr s' \<Rightarrow>
        \<not> editMode s' \<and>
        localStorage s' ''todos'' = Some [todo_a] \<and>
        visibleTodos s' = [\<lparr>id_todo = 1, title = utf16 ''z'', completed = False\<rparr>])"
  using editTodo_Escape_keeps_title
    [where s = "selectTodoToEdit 1 (started ''/'' [todo_a])"
       and sel = 1 and v = "0xA0 # utf16 '' z'' @ [0x3000, 0xFEFF]" and todo = 1]
  by (simp add: run_defs)

subsection \<open>C2: deleting an id that is not visible\<close>

text \<open>
  C2, as amended. For every state and every target whose id occurs in no entry of
  the visible list, \<open>deleteTodo\<close> (which cannot throw) leaves the visible list, the
  edit mode, the selected todo, the route and every object unchanged; but
  \<open>this.todos = this.tempTodos\<close> makes \<open>allTodos\<close> the visible list, and
  \<open>saveTodos\<close> stores the visible list under \<open>"todos"\<close>. So \<open>allTodos\<close> is unchanged
  exactly when it was the visible list already, and the storage is unchanged exactly
  when it held the visible list already.
\<close>

theorem deleteTodo_absent_id:
  assumes "id_todo (objs s ! todo) \<notin> id_todo ` set (visibleTodos s)"
  shows "visibleTodos (deleteTodo todo s) = visibleTodos s \<and>
   editMode (deleteTodo todo s) = editMode s \<and>
   todoSelectedToEdit (deleteTodo todo s) = todoSelectedToEdit s \<and>
   currentUrl (deleteTodo todo s) = currentUrl s \<and>
   objs (deleteTodo todo s) = objs s \<and>
   allTodos (deleteTodo todo s) = visibleTodos s \<and>
   localStorage (deleteTodo todo s) = (localStorage s)(''todos'' \<mapsto> visibleTodos s) \<and>
   (allTodos (deleteTodo todo s) = allTodos s) = (allTodos s = visibleTodos s) \<and>
   (localStorage (deleteTodo todo s) = localStorage s) =
     (localStorage s ''todos'' = Some (visibleTodos s))"
proof -
  have eq: "localStorage (deleteTodo todo s) = (localStorage s)(''todos'' \<mapsto> visibleTodos s)"
    and al: "allTodos (deleteTodo todo s) = visibleTodos s"
    using filter_ids_absent [OF assms] by (simp_all add: deleteTodo_def ops_defs)
  have "visibleTodos (deleteTodo todo s) = visibleTodos s"
    using filter_ids_absent [OF assms] by (simp add: deleteTodo_def ops_defs)
  moreover have "editMode (deleteTodo todo s) = editMode s"
    "todoSelectedToEdit (deleteTodo todo s) = todoSelectedToEdit s"
    "currentUrl (deleteTodo todo s) = currentUrl s" "objs (deleteTodo todo s) = objs s"
    by (simp_all add: deleteTodo_def ops_defs)
  moreover have "(allTodos (deleteTodo todo s) = allTodos s) = (allTodos s = visibleTodos s)"
    unfolding al by auto
  moreover have "(localStorage (deleteTodo todo s) = localStorage s) =
     (localStorage s ''todos'' = Some (visibleTodos s))"
    unfolding eq by (simp add: fun_upd_idem_iff)
  ultimately show ?thesis using eq al by simp
qed

text \<open>
  On the route \<open>/pending\<close> with \<open>{1, "a", false}\<close> and \<open>{2, "b", true}\<close> stored, the
  todo with id 2 (object 3) is not visible; deleting it keeps the visible list.
\<close>

theorem deleteTodo_absent_id_witness:
  "id_todo (objs pending_example ! 3) \<notin> id_todo ` set (visibleTodos pending_example) \<and>
   visibleTodos (deleteTodo 3 pending_example) = [todo_a] \<and>
   allTodos (deleteTodo 3 pending_example) = [todo_a] \<and>
   localStorage (deleteTodo 3 pending_example) ''todos'' = Some [todo_a]"
  using deleteTodo_absent_id [where s = pending_example and todo = 3]
  by (simp add: run_defs)

text \<open>
  C2 as stated fails in that state, which the page reaches by starting on
  \<open>/pending\<close>: the id 2 occurs in no visible entry, yet \<open>deleteTodo\<close> shrinks
  \<open>allTodos\<close> from two entries to one and replaces the stored list.
\<close>

theorem deleteTodo_absent_id_counterexample:
  "well_formed pending_example \<and> objs pending_example ! 3 = todo_b \<and>
   id_todo (objs pending_example ! 3) \<notin> id_todo ` set (visibleTodos pending_example) \<and>
   allTodos pending_example = [todo_a, todo_b] \<and>
   allTodos (deleteTodo 3 pending_example) = [todo_a] \<and>
   allTodos (deleteTodo 3 pending_example) \<noteq> allTodos pending_example \<and>
   localStorage pending_example ''todos'' = Some [todo_a, todo_b] \<and>
   localStorage (deleteTodo 3 pending_example) ''todos'' = Some [todo_a] \<and>
   localStorage (deleteTodo 3 pending_example) \<noteq> localStorage pending_example"
proof -
  have a: "localStorage pending_example ''todos'' = Some [todo_a, todo_b]"
    and b: "localStorage (deleteTodo 3 pending_example) ''todos'' = Some [todo_a]"
    by (simp_all add: run_defs)
  have "localStorage (deleteTodo 3 pending_example) \<noteq> localStorage pending_example"
  proof
    assume "localStorage (deleteTodo 3 pending_example) = localStorage pending_example"
    with a b show False by simp
  qed
  moreover have "well_formed pending_example \<and> objs pending_example ! 3 = todo_b \<and>
   id_todo (objs pending_example ! 3) \<notin> id_todo ` set (visibleTodos pending_example) \<and>
   allTodos pending_example = [todo_a, todo_b] \<and>
   allTodos (deleteTodo 3 pending_example) = [todo_a] \<and>
   allTodos (deleteTodo 3 pending_example) \<noteq> allTodos pending_example"
    by (simp add: run_defs)
  ultimately show ?thesis using a b by blast
qed

subsection \<open>C3: toggling twice\<close>

text \<open>
  C3. In every well-formed state, \<open>toggleCheck\<close> on a todo negates \<open>completed\<close> in
  the visible entries with that id and leaves every other visible entry as it is,
  field for field; a second \<open>toggleCheck\<close> on any todo with the same id (the copy
  the first call made, or the same object again) gives back the visible list of the
  start, so the flag of the entry is the original one and the other entries are
  unchanged after each application. The id need not occur in the visible list.
\<close>

theorem toggleCheck_twice:
  assumes "well_formed s" "todo < length (objs s)"
  shows "visibleTodos (toggleCheck todo s) =
           map (\<lambda>t. if id_todo t = id_todo (objs s ! todo) then t\<lparr>completed := \<not> completed t\<rparr> else t)
             (visibleTodos s) \<and>
         (todo2 < length (objs (toggleCheck todo s)) \<longrightarrow>
          id_todo (objs (toggleCheck todo s) ! todo2) = id_todo (objs s ! todo) \<longrightarrow>
            visibleTodos (toggleCheck todo2 (toggleCheck todo s)) = visibleTodos s) \<and>
         visibleTodos (toggleCheck todo (toggleCheck todo s)) = visibleTodos s"
proof -
  let ?s1 = "toggleCheck todo s"
  let ?f = "\<lambda>t. if id_todo (objs s ! todo) = id_todo t then t\<lparr>completed := \<not> completed t\<rparr> else t"
  from toggleCheck_effect(3) [OF assms] obtain ys where o: "objs ?s1 = objs s @ ys" ..
  then have l: "todo < length (objs ?s1)" and e: "objs ?s1 ! todo = objs s ! todo"
    using assms(2) by (simp_all add: nth_append)
  have w: "well_formed ?s1" by (rule toggleCheck_effect(2) [OF assms])
  have 1: "visibleTodos ?s1 = map ?f (visibleTodos s)"
    by (rule toggleCheck_effect(1) [OF assms])
  have 2: "visibleTodos (toggleCheck r ?s1) = visibleTodos s"
    if "r < length (objs ?s1)" "id_todo (objs ?s1 ! r) = id_todo (objs s ! todo)" for r
    unfolding toggleCheck_effect(1) [OF w that(1)] that(2) 1 by (rule toggle_twice)
  have "(\<lambda>t. if id_todo t = id_todo (objs s ! todo) then t\<lparr>completed := \<not> completed t\<rparr> else t) = ?f"
    by auto
  with 1 2 [of todo2] 2 [OF l] e show ?thesis by simp
qed

text \<open>
  On the route \<open>/\<close> with \<open>{1, "a", false}\<close> and \<open>{2, "b", true}\<close>: the first toggle
  of the todo with id 1 (object 2) completes it, the second, on the copy the first
  made (object 4), restores the list.
\<close>

theorem toggleCheck_twice_witness:
  "well_formed all_example \<and> 2 < length (objs all_example) \<and>
   visibleTodos all_example = [todo_a, todo_b] \<and>
   visibleTodos (toggleCheck 2 all_example) = [todo_a\<lparr>completed := True\<rparr>, todo_b] \<and>
   4 < length (objs (toggleCheck 2 all_example)) \<and>
   id_todo (objs (toggleCheck 2 all_example) ! 4) = id_todo (objs all_example ! 2) \<and>
   visibleTodos (toggleCheck 4 (toggleCheck 2 all_example)) = [todo_a, todo_b]"
  using toggleCheck_twice [where s = all_example and todo = 2 and ?todo2.0 = 4]
  by (simp add: run_defs)

subsection \<open>C4: Enter puts the new todo in front\<close>

text \<open>
  C4. In every well-formed state, \<open>addNewTodo\<close> with the key Enter puts the todo
  \<open>{now, trim v, false}\<close> at index 0 of the visible list and keeps the old entries
  behind it, so the length grows by exactly one; over any sequence of such calls the
  visible list is the old one with the new todos in front, the newest first, and the
  length grows by the number of calls. In particular, adding \<open>"buy milk"\<close> to an
  empty visible list gives an entry 0 with the title \<open>"buy milk"\<close> and \<open>completed\<close>
  false.
\<close>

theorem addNewTodo_Enter_front:
  assumes "well_formed s"
  shows "visibleTodos (addNewTodo v ''Enter'' now s) =
           \<lparr>id_todo = now, title = trim v, completed = False\<rparr> # visibleTodos s \<and>
         length (visibleTodos (addNewTodo v ''Enter'' now s)) = length (visibleTodos s) + 1 \<and>
         visibleTodos (addNewTodo_seq cs s) =
           rev (map (\<lambda>(v, now). \<lparr>id_todo = now, title = trim v, completed = False\<rparr>) cs) @
           visibleTodos s \<and>
         length (visibleTodos (addNewTodo_seq cs s)) = length (visibleTodos s) + length cs \<and>
         (visibleTodos s = [] \<longrightarrow>
            title (visibleTodos (addNewTodo (utf16 ''buy milk'') ''Enter'' now s) ! 0) = utf16 ''buy milk'' \<and>
            completed (visibleTodos (addNewTodo (utf16 ''buy milk'') ''Enter'' now s) ! 0) = False)"
proof -
  have t: "trim (utf16 ''buy milk'') = utf16 ''buy milk''"
    by (simp add: trim_def is_white_space_def utf16_def)
  show ?thesis
    using assms by (simp add: addNewTodo_Enter_visible addNewTodo_seq_visible t)
qed

text \<open>
  A component started over an empty storage, then one and two additions; the second
  text is \<open>"tea"\<close> between a no-break space, a space, an em space and a byte order
  mark.
\<close>

theorem addNewTodo_Enter_front_witness:
  "well_formed (empty_example ''/'') \<and> visibleTodos (empty_example ''/'') = [] \<and>
   visibleTodos (addNewTodo (utf16 ''buy milk'') ''Enter'' 10 (empty_example ''/'')) =
     [\<lparr>id_todo = 10, title = utf16 ''buy milk'', completed = False\<rparr>] \<and>
   visibleTodos (addNewTodo (0xA0 # utf16 '' tea'' @ [0x2003, 0xFEFF]) ''Enter'' 20
       (empty_example ''/'')) =
     [\<lparr>id_todo = 20, title = utf16 ''tea'', completed = False\<rparr>] \<and>
   visibleTodos (addNewTodo_seq
       [(utf16 ''buy milk'', 10), (0xA0 # utf16 '' tea'' @ [0x2003, 0xFEFF], 20)]
       (empty_example ''/'')) =
     [\<lparr>id_todo = 20, title = utf16 ''tea'', completed = False\<rparr>,
      \<lparr>id_todo = 10, title = utf16 ''buy milk'', completed = False\<rparr>]"
  using addNewTodo_Enter_front [where s = "empty_example ''/''"
      and v = "0xA0 # utf16 '' tea'' @ [0x2003, 0xFEFF]" and now = 20
      and cs = "[(utf16 ''buy milk'', 10), (0xA0 # utf16 '' tea'' @ [0x2003, 0xFEFF], 20)]"]
  by (simp add: run_defs)

subsection \<open>C5: clearCompleted\<close>

text \<open>
  C5. In every well-formed state and on every route, after \<open>clearCompleted\<close> no
  entry of \<open>allTodos\<close> and no entry of the visible list is completed. On
  \<open>/completed\<close> the visible list is empty and \<open>allTodos\<close> keeps its pending entries;
  on any other route both lists are the pending entries of the old visible list. In
  particular, on the route \<open>/\<close> with the visible list
  \<open>[{1, "a", true}, {2, "b", false}]\<close> both lists become \<open>[{2, "b", false}]\<close>.
\<close>

theorem clearCompleted_removes_completed:
  assumes "well_formed s"
  shows "(\<forall>t \<in> set (allTodos (clearCompleted s)). \<not> completed t) \<and>
         (\<forall>t \<in> set (visibleTodos (clearCompleted s)). \<not> completed t) \<and>
         (currentUrl s = ''/completed'' \<longrightarrow>
            visibleTodos (clearCompleted s) = [] \<and>
            allTodos (clearCompleted s) = filter (\<lambda>t. \<not> completed t) (allTodos s)) \<and>
         (currentUrl s \<noteq> ''/completed'' \<longrightarrow>
            visibleTodos (clearCompleted s) = filter (\<lambda>t. \<not> completed t) (visibleTodos s) \<and>
            allTodos (clearCompleted s) = filter (\<lambda>t. \<not> completed t) (visibleTodos s)) \<and>
         (currentUrl s = ''/'' \<longrightarrow>
          visibleTodos s = [\<lparr>id_todo = 1, title = utf16 ''a'', completed = True\<rparr>,
                            \<lparr>id_todo = 2, title = utf16 ''b'', completed = False\<rparr>] \<longrightarrow>
            allTodos (clearCompleted s) = [\<lparr>id_todo = 2, title = utf16 ''b'', completed = False\<rparr>] \<and>
            visibleTodos (clearCompleted s) = [\<lparr>id_todo = 2, title = utf16 ''b'', completed = False\<rparr>])"
proof -
  have c: "currentUrl s = ''/completed'' \<Longrightarrow>
            visibleTodos (clearCompleted s) = [] \<and>
            allTodos (clearCompleted s) = filter (\<lambda>t. \<not> completed t) (allTodos s)"
    using assms
    by (simp add: clearCompleted_def ops_defs well_formed_def nth_append filter_map comp_def)
  have d: "currentUrl s \<noteq> ''/completed'' \<Longrightarrow>
            visibleTodos (clearCompleted s) = filter (\<lambda>t. \<not> completed t) (visibleTodos s) \<and>
            allTodos (clearCompleted s) = filter (\<lambda>t. \<not> completed t) (visibleTodos s)"
    by (simp add: clearCompleted_def ops_defs filter_map comp_def)
  have a: "\<forall>t \<in> set (allTodos (clearCompleted s)). \<not> completed t"
    using c d by (cases "currentUrl s = ''/completed''") simp_all
  have v: "\<forall>t \<in> set (visibleTodos (clearCompleted s)). \<not> completed t"
    using c d by (cases "currentUrl s = ''/completed''") simp_all
  have e: "currentUrl s = ''/'' \<Longrightarrow>
          visibleTodos s = [\<lparr>id_todo = 1, title = utf16 ''a'', completed = True\<rparr>,
                            \<lparr>id_todo = 2, title = utf16 ''b'', completed = False\<rparr>] \<Longrightarrow>
            allTodos (clearCompleted s) = [\<lparr>id_todo = 2, title = utf16 ''b'', completed = False\<rparr>] \<and>
            visibleTodos (clearCompleted s) = [\<lparr>id_todo = 2, title = utf16 ''b'', completed = False\<rparr>]"
    using d by simp
  from a v c d e show ?thesis by blast
qed

text \<open>The scenario of C5 on a started component, and the same storage on \<open>/completed\<close>.\<close>

theorem clearCompleted_removes_completed_witness:
  "well_formed (started ''/'' [todo_a\<lparr>completed := True\<rparr>, todo_b\<lparr>completed := False\<rparr>]) \<and>
   currentUrl (started ''/'' [todo_a\<lparr>completed := True\<rparr>, todo_b\<lparr>completed := False\<rparr>]) = ''/'' \<and>
   visibleTodos (started ''/'' [todo_a\<lparr>completed := True\<rparr>, todo_b\<lparr>completed := False\<rparr>]) =
     [\<lparr>id_todo = 1, title = utf16 ''a'', completed = True\<rparr>,
      \<lparr>id_todo = 2, title = utf16 ''b'', completed = False\<rparr>] \<and>
   allTodos (clearCompleted
       (started ''/'' [todo_a\<lparr>completed := True\<rparr>, todo_b\<lparr>completed := False\<rparr>])) =
     [\<lparr>id_todo = 2, title = utf16 ''b'', completed = False\<rparr>] \<and>
   visibleTodos (clearCompleted
       (started ''/'' [todo_a\<lparr>completed := True\<rparr>, todo_b\<lparr>completed := False\<rparr>])) =
     [\<lparr>id_todo = 2, title = utf16 ''b'', completed = False\<rparr>]"
  using clearCompleted_removes_completed
    [where s = "started ''/'' [todo_a\<lparr>completed := True\<rparr>, todo_b\<lparr>completed := False\<rparr>]"]
  by (simp add: run_defs)

subsection \<open>C6: storing and starting again\<close>

text \<open>
  C6. For every state whose visible list is what \<open>filterTodos\<close> would compute from
  \<open>allTodos\<close> on its route, \<open>saveTodos\<close> followed by the initialisation of a fresh
  component over the resulting storage, on the same route, gives the same visible
  list.
\<close>

theorem persist_then_reinit:
  assumes "visibleTodos s = visibleTodos (filterTodos s)"
  shows "visibleTodos (ngOnInit (currentUrl s) (HomeComponent (localStorage (saveTodos s)))) =
           visibleTodos s"
proof -
  let ?X = "if currentUrl s = ''/completed'' then allTodos s else visibleTodos s"
  have st: "localStorage (saveTodos s) ''todos'' = Some ?X"
    by (simp add: ops_defs)
  have "visibleTodos (ngOnInit (currentUrl s) (HomeComponent (localStorage (saveTodos s)))) =
     (if currentUrl s = ''/completed'' then filter completed ?X
      else if currentUrl s = ''/pending'' then filter (\<lambda>t. \<not> completed t) ?X else ?X)"
    by (rule ngOnInit_fresh_Some(2)) (rule st)
  then show ?thesis
    using assms by (auto simp: filterTodos_visible split: if_splits)
qed

text \<open>On \<open>/pending\<close>: the visible list \<open>[{1, "a", false}]\<close> is stored and found again.\<close>

theorem persist_then_reinit_witness:
  "visibleTodos pending_example = visibleTodos (filterTodos pending_example) \<and>
   visibleTodos pending_example = [todo_a] \<and>
   localStorage (saveTodos pending_example) ''todos'' = Some [todo_a] \<and>
   visibleTodos (ngOnInit (currentUrl pending_example)
      (HomeComponent (localStorage (saveTodos pending_example)))) = [todo_a]"
  using persist_then_reinit [where s = pending_example]
  by (simp add: run_defs)

subsection \<open>C7: the number of pending todos\<close>

text \<open>
  C7. In every state the getter \<open>pendingTodos\<close> returns the number of entries of
  \<open>allTodos\<close> that are not completed; the number does not depend on the route or on
  which array \<open>tempTodos\<close> is. Evaluating it changes no field of the component, no
  object and nothing in the storage (the array that \<open>filter\<close> allocates is not
  referenced by the component), so in a well-formed state both lists are as before.
\<close>

theorem pendingTodos_count:
  "fst (pendingTodos s) = length (filter (\<lambda>t. \<not> completed t) (allTodos s)) \<and>
   fst (pendingTodos (s\<lparr>currentUrl := url, tempTodos := a\<rparr>)) = fst (pendingTodos s) \<and>
   todos (snd (pendingTodos s)) = todos s \<and>
   tempTodos (snd (pendingTodos s)) = tempTodos s \<and>
   editMode (snd (pendingTodos s)) = editMode s \<and>
   todoSelectedToEdit (snd (pendingTodos s)) = todoSelectedToEdit s \<and>
   currentUrl (snd (pendingTodos s)) = currentUrl s \<and>
   objs (snd (pendingTodos s)) = objs s \<and>
   localStorage (snd (pendingTodos s)) = localStorage s \<and>
   (well_formed s \<longrightarrow>
      allTodos (snd (pendingTodos s)) = allTodos s \<and>
      visibleTodos (snd (pendingTodos s)) = visibleTodos s)"
  by (simp add: pendingTodos_def ops_defs well_formed_def nth_append_left filter_map comp_def)

text \<open>
  With \<open>{1, "a", false}\<close> and \<open>{2, "b", true}\<close> stored, one todo is pending, on
  \<open>/pending\<close> and on \<open>/completed\<close> alike.
\<close>

theorem pendingTodos_count_witness:
  "well_formed pending_example \<and> allTodos pending_example = [todo_a, todo_b] \<and>
   fst (pendingTodos pending_example) = 1 \<and>
   fst (pendingTodos completed_example) = 1 \<and>
   allTodos (snd (pendingTodos pending_example)) = [todo_a, todo_b] \<and>
   visibleTodos (snd (pendingTodos pending_example)) = [todo_a] \<and>
   localStorage (snd (pendingTodos pending_example)) ''todos'' = Some [todo_a, todo_b]"
  using pendingTodos_count [where s = pending_example and url = "''/completed''" and a = 0]
  by (simp add: run_defs)

subsection \<open>C8: a key other than Enter\<close>

text \<open>
  C8. In every well-formed state and for every key other than Enter, \<open>addNewTodo\<close>
  inserts nothing: both lists, every array and every field of the component are
  unchanged. It still calls \<open>saveTodos\<close>: afterwards the storage holds, under
  \<open>"todos"\<close>, the list the route selects (\<open>allTodos\<close> on \<open>/completed\<close>, the visible
  list otherwise).
\<close>

theorem addNewTodo_other_key:
  assumes "well_formed s" "k \<noteq> ''Enter''"
  shows "visibleTodos (addNewTodo v k now s) = visibleTodos s \<and>
   allTodos (addNewTodo v k now s) = allTodos s \<and>
   arrs (addNewTodo v k now s) = arrs s \<and>
   todos (addNewTodo v k now s) = todos s \<and>
   tempTodos (addNewTodo v k now s) = tempTodos s \<and>
   editMode (addNewTodo v k now s) = editMode s \<and>
   todoSelectedToEdit (addNewTodo v k now s) = todoSelectedToEdit s \<and>
   currentUrl (addNewTodo v k now s) = currentUrl s \<and>
   localStorage (addNewTodo v k now s) =
     (localStorage s)(''todos'' \<mapsto>
        (if currentUrl s = ''/completed'' then allTodos s else visibleTodos s))"
  using assms by (simp add: addNewTodo_def ops_defs well_formed_def map_nth_append_valid)

text \<open>
  On \<open>/pending\<close>, typing the letter \<open>a\<close> inserts nothing and replaces the stored list
  by the visible one.
\<close>

theorem addNewTodo_other_key_witness:
  "well_formed pending_example \<and> ''a'' \<noteq> ''Enter'' \<and>
   visibleTodos (addNewTodo (utf16 ''x'') ''a'' 9 pending_example) = [todo_a] \<and>
   allTodos (addNewTodo (utf16 ''x'') ''a'' 9 pending_example) = [todo_a, todo_b] \<and>
   localStorage pending_example ''todos'' = Some [todo_a, todo_b] \<and>
   localStorage (addNewTodo (utf16 ''x'') ''a'' 9 pending_example) ''todos'' = Some [todo_a]"
  using addNewTodo_other_key
    [where s = pending_example and k = "''a''" and v = "utf16 ''x''" and now = 9]
  by (simp add: run_defs)

subsection \<open>C9: toggling on the route /completed\<close>

text \<open>
  C9, as amended. In every well-formed state on the route \<open>/completed\<close>,
  \<open>toggleCheck\<close> changes the visible list only: \<open>allTodos\<close> and the other fields are
  unchanged, and \<open>saveTodos\<close> writes \<open>allTodos\<close>, so the stored value under
  \<open>"todos"\<close> is \<open>allTodos\<close>, without the toggle; it is unchanged whenever the
  storage already held \<open>allTodos\<close>. A fresh component initialised from that storage
  on \<open>/completed\<close> shows the completed entries of \<open>allTodos\<close>: the toggle is lost.
\<close>

theorem toggleCheck_completed_route:
  assumes "well_formed s" "todo < length (objs s)" "currentUrl s = ''/completed''"
  shows "allTodos (toggleCheck todo s) = allTodos s \<and>
   todos (toggleCheck todo s) = todos s \<and>
   editMode (toggleCheck todo s) = editMode s \<and>
   todoSelectedToEdit (toggleCheck todo s) = todoSelectedToEdit s \<and>
   currentUrl (toggleCheck todo s) = currentUrl s \<and>
   localStorage (toggleCheck todo s) = (localStorage s)(''todos'' \<mapsto> allTodos s) \<and>
   (localStorage s ''todos'' = Some (allTodos s) \<longrightarrow>
      localStorage (toggleCheck todo s) = localStorage s) \<and>
   allTodos (ngOnInit ''/completed'' (HomeComponent (localStorage (toggleCheck todo s)))) =
     allTodos s \<and>
   visibleTodos (ngOnInit ''/completed'' (HomeComponent (localStorage (toggleCheck todo s)))) =
     filter completed (allTodos s)"
proof -
  have st: "localStorage (toggleCheck todo s) = (localStorage s)(''todos'' \<mapsto> allTodos s)"
    using toggleCheck_effect(5) [OF assms(1,2)] assms(3) by simp
  then have g: "localStorage (toggleCheck todo s) ''todos'' = Some (allTodos s)"
    by simp
  have i: "localStorage s ''todos'' = Some (allTodos s) \<longrightarrow>
      localStorage (toggleCheck todo s) = localStorage s"
    unfolding st by (simp add: map_upd_triv)
  have r1: "allTodos (ngOnInit ''/completed'' (HomeComponent (localStorage (toggleCheck todo s)))) =
     allTodos s"
    by (rule ngOnInit_fresh_Some(1)) (rule g)
  have "visibleTodos (ngOnInit ''/completed'' (HomeComponent (localStorage (toggleCheck todo s)))) =
     (if ''/completed'' = ''/completed'' then filter completed (allTodos s)
      else if ''/completed'' = ''/pending'' then filter (\<lambda>t. \<not> completed t) (allTodos s)
      else allTodos s)"
    by (rule ngOnInit_fresh_Some(2)) (rule g)
  then have r2: "visibleTodos (ngOnInit ''/completed''
      (HomeComponent (localStorage (toggleCheck todo s)))) = filter completed (allTodos s)"
    by simp
  show ?thesis
    using toggleCheck_effect(4,6,7,8,9) [OF assms(1,2)] st i r1 r2
    by simp
qed

text \<open>
  On \<open>/completed\<close> with \<open>{1, "a", false}\<close> and \<open>{2, "b", true}\<close> stored: toggling the
  visible todo (object 3) shows it as pending, the storage keeps it completed, and
  the next start shows it completed again.
\<close>

theorem toggleCheck_completed_route_witness:
  "well_formed completed_example \<and> 3 < length (objs completed_example) \<and>
   currentUrl completed_example = ''/completed'' \<and>
   visibleTodos completed_example = [todo_b] \<and>
   localStorage completed_example ''todos'' = Some [todo_a, todo_b] \<and>
   visibleTodos (toggleCheck 3 completed_example) = [todo_b\<lparr>completed := False\<rparr>] \<and>
   allTodos (toggleCheck 3 completed_example) = [todo_a, todo_b] \<and>
   localStorage (toggleCheck 3 completed_example) ''todos'' = Some [todo_a, todo_b] \<and>
   visibleTodos (ngOnInit ''/completed''
      (HomeComponent (localStorage (toggleCheck 3 completed_example)))) = [todo_b]"
  using toggleCheck_completed_route [where s = completed_example and todo = 3]
  by (simp add: run_defs)

text \<open>
  C9 as stated fails where the storage does not hold \<open>allTodos\<close>. The page reaches
  such a state on \<open>/completed\<close> by an edit ended with Escape, which changes the title
  of the shared object and stores nothing: the storage still has the title \<open>"b"\<close>.
  The \<open>toggleCheck\<close> that follows leaves \<open>allTodos\<close> as it is, and its \<open>saveTodos\<close>
  writes it, so the stored value changes to the title \<open>"z"\<close>.
\<close>

theorem toggleCheck_completed_route_counterexample:
  "editTodo (utf16 ''z'') ''Escape'' (selectTodoToEdit 1 (started ''/completed'' [todo_b])) =
     Inr edited_example \<and>
   well_formed edited_example \<and> currentUrl edited_example = ''/completed'' \<and>
   visibleTodos edited_example = [todo_b\<lparr>title := utf16 ''z''\<rparr>] \<and>
   allTodos edited_example = [todo_b\<lparr>title := utf16 ''z''\<rparr>] \<and>
   allTodos (toggleCheck 1 edited_example) = [todo_b\<lparr>title := utf16 ''z''\<rparr>] \<and>
   localStorage edited_example ''todos'' = Some [todo_b] \<and>
   localStorage (toggleCheck 1 edited_example) ''todos'' = Some [todo_b\<lparr>title := utf16 ''z''\<rparr>] \<and>
   localStorage (toggleCheck 1 edited_example) \<noteq> localStorage edited_example"
proof -
  have a: "localStorage edited_example ''todos'' = Some [todo_b]"
    and b: "localStorage (toggleCheck 1 edited_example) ''todos'' =
              Some [todo_b\<lparr>title := utf16 ''z''\<rparr>]"
    by (simp_all add: run_defs)
  have "localStorage (toggleCheck 1 edited_example) \<noteq> localStorage edited_example"
  proof
    assume "localStorage (toggleCheck 1 edited_example) = localStorage edited_example"
    with a b show False by (simp add: utf16_def)
  qed
  moreover have "editTodo (utf16 ''z'') ''Escape'' (selectTodoToEdit 1 (started ''/completed'' [todo_b])) =
     Inr edited_example \<and>
   well_formed edited_example \<and> currentUrl edited_example = ''/completed'' \<and>
   visibleTodos edited_example = [todo_b\<lparr>title := utf16 ''z''\<rparr>] \<and>
   allTodos edited_example = [todo_b\<lparr>title := utf16 ''z''\<rparr>] \<and>
   allTodos (toggleCheck 1 edited_example) = [todo_b\<lparr>title := utf16 ''z''\<rparr>]"
    by (simp add: run_defs)
  ultimately show ?thesis using a b by blast
qed

subsection \<open>C10: an empty title is not refused\<close>

text \<open>
  C10, as amended. In every well-formed state, \<open>addNewTodo\<close> with the key Enter
  checks nothing about the text: when it trims to the empty string, the todo
  \<open>{now, "", false}\<close> is still put in front of the visible list, and \<open>saveTodos\<close>
  is called. On every route but \<open>/completed\<close> the stored list is the new visible
  list, with the todo in front. On \<open>/completed\<close> the stored list is \<open>allTodos\<close>,
  which has the new todo only when \<open>todos\<close> and \<open>tempTodos\<close> are one array.
\<close>

theorem addNewTodo_empty_title:
  assumes "well_formed s" "trim v = []"
  shows "visibleTodos (addNewTodo v ''Enter'' now s) =
           \<lparr>id_todo = now, title = [], completed = False\<rparr> # visibleTodos s \<and>
   allTodos (addNewTodo v ''Enter'' now s) =
     (if todos s = tempTodos s
      then \<lparr>id_todo = now, title = [], completed = False\<rparr> # allTodos s else allTodos s) \<and>
   (currentUrl s \<noteq> ''/completed'' \<longrightarrow>
      localStorage (addNewTodo v ''Enter'' now s) =
        (localStorage s)(''todos'' \<mapsto>
           \<lparr>id_todo = now, title = [], completed = False\<rparr> # visibleTodos s)) \<and>
   (currentUrl s = ''/completed'' \<longrightarrow>
      localStorage (addNewTodo v ''Enter'' now s) =
        (localStorage s)(''todos'' \<mapsto> allTodos (addNewTodo v ''Enter'' now s)))"
  using assms
  by (simp add: addNewTodo_def ops_defs well_formed_def map_nth_append_valid nth_list_update)

text \<open>
  On the route \<open>/\<close>, a no-break space, a space, an ideographic space and a line
  separator, then Enter: the text trims to the empty string, and the empty todo is
  shown and stored.
\<close>

theorem addNewTodo_empty_title_witness:
  "well_formed (empty_example ''/'') \<and> trim [0xA0, 0x20, 0x3000, 0x2028] = [] \<and>
   visibleTodos (addNewTodo [0xA0, 0x20, 0x3000, 0x2028] ''Enter'' 5 (empty_example ''/'')) =
     [\<lparr>id_todo = 5, title = [], completed = False\<rparr>] \<and>
   localStorage (addNewTodo [0xA0, 0x20, 0x3000, 0x2028] ''Enter'' 5 (empty_example ''/''))
       ''todos'' =
     Some [\<lparr>id_todo = 5, title = [], completed = False\<rparr>]"
  using addNewTodo_empty_title
    [where s = "empty_example ''/''" and v = "[0xA0, 0x20, 0x3000, 0x2028]" and now = 5]
  by (simp add: run_defs)

text \<open>
  C10 as stated fails on the route \<open>/completed\<close>: started over an empty storage,
  the component shows the empty todo after Enter, but the stored list is \<open>allTodos\<close>,
  which is empty: the todo is not persisted.
\<close>

theorem addNewTodo_empty_title_counterexample:
  "well_formed (empty_example ''/completed'') \<and> trim (utf16 ''  '') = [] \<and>
   currentUrl (empty_example ''/completed'') = ''/completed'' \<and>
   visibleTodos (addNewTodo (utf16 ''  '') ''Enter'' 5 (empty_example ''/completed'')) =
     [\<lparr>id_todo = 5, title = [], completed = False\<rparr>] \<and>
   allTodos (addNewTodo (utf16 ''  '') ''Enter'' 5 (empty_example ''/completed'')) = [] \<and>
   localStorage (addNewTodo (utf16 ''  '') ''Enter'' 5 (empty_example ''/completed'')) ''todos'' = Some []"
  by (simp add: run_defs)

end
